theory Spec2Isabelle
  imports Complex_Main "HOL-Library.Multiset"
begin

section \<open>Free time slots and slot quality of the calendar service\<close>

text \<open>
  A shallow embedding of \<^verbatim>\<open>GoogleCalendarService.calculate_free_time_slots\<close> and
  \<^verbatim>\<open>GoogleCalendarService._calculate_slot_quality\<close>
  (\<^verbatim>\<open>backend/app/services/google_calendar_service.py\<close>) with the two pydantic models
  they read and build (\<^verbatim>\<open>backend/app/schemas/scheduling.py\<close>).

  Modelling decisions:
  \<^item> a (naive) \<^verbatim>\<open>datetime\<close> is the number of microseconds since a midnight, an \<open>int\<close>;
    comparison is \<open>\<le>\<close>, subtraction gives the \<^verbatim>\<open>timedelta\<close> in microseconds and
    \<^verbatim>\<open>.hour\<close> is the hour of the day;
  \<^item> Python's \<^verbatim>\<open>float\<close> is modelled by exact \<open>real\<close> arithmetic: rounding of binary
    floating point is not part of the model;
  \<^item> a \<^verbatim>\<open>str\<close> is a list of (8-bit) characters;
  \<^item> the \<^verbatim>\<open>Dict[str, Any]\<close> of preferences is a map from strings to the Python values
    \<open>pyval\<close>; \<open>PyNone\<close> stands for every value that is neither a string nor an integer
    (comparing it with an integer raises \<^verbatim>\<open>TypeError\<close>);
  \<^item> every exception is a value \<open>Inl e\<close> of the result type \<open>error + 'a\<close>.
\<close>

subsection \<open>Python values and built-ins\<close>

datatype error = ValueError | IndexError | TypeError | ValidationError

datatype pyval = PyStr string | PyInt int | PyNone

type_synonym prefs = "string \<rightharpoonup> pyval"

type_synonym datetime = int

definition dict_get :: "prefs \<Rightarrow> string \<Rightarrow> pyval \<Rightarrow> pyval" where
  \<comment> \<open>\<^verbatim>\<open>d.get(key, default)\<close>\<close>
  "dict_get d k dflt = (case d k of None \<Rightarrow> dflt | Some v \<Rightarrow> v)"

fun py_split :: "char \<Rightarrow> string \<Rightarrow> string list" where
  \<comment> \<open>\<^verbatim>\<open>s.split(sep)\<close> for a separator of one character\<close>
  "py_split c [] = [[]]"
| "py_split c (x # xs) =
     (if x = c then [] # py_split c xs
      else (case py_split c xs of [] \<Rightarrow> [[x]] | w # ws \<Rightarrow> (x # w) # ws))"

definition py_index :: "'a list \<Rightarrow> nat \<Rightarrow> error + 'a" where
  \<comment> \<open>\<^verbatim>\<open>xs[i]\<close> for a literal index \<open>i \<ge> 0\<close>\<close>
  "py_index xs i = (if i < length xs then Inr (xs ! i) else Inl IndexError)"

definition is_space :: "char \<Rightarrow> bool" where
  \<comment> \<open>the ASCII characters that \<^verbatim>\<open>int()\<close> strips as white space\<close>
  "is_space c = (c \<in> set [CHR '' '', CHR 0x09, CHR 0x0A, CHR 0x0B, CHR 0x0C, CHR 0x0D,
                           CHR 0x1C, CHR 0x1D, CHR 0x1E, CHR 0x1F])"

definition py_strip :: "string \<Rightarrow> string" where
  "py_strip s = rev (dropWhile is_space (rev (dropWhile is_space s)))"

definition digit_of :: "char \<Rightarrow> int option" where
  "digit_of c = (let n = (of_char c :: nat)
                 in if 48 \<le> n \<and> n \<le> 57 then Some (int n - 48) else None)"

fun parse_digits :: "int \<Rightarrow> string \<Rightarrow> int option" where
  \<comment> \<open>the digits after the first one; a single underscore may separate two digits\<close>
  "parse_digits acc [] = Some acc"
| "parse_digits acc (c # cs) =
     (if c = CHR ''_''
      then (case cs of
              [] \<Rightarrow> None
            | d # ds \<Rightarrow> (case digit_of d of
                          None \<Rightarrow> None
                        | Some v \<Rightarrow> parse_digits (10 * acc + v) ds))
      else (case digit_of c of
              None \<Rightarrow> None
            | Some v \<Rightarrow> parse_digits (10 * acc + v) cs))"

definition parse_unsigned :: "string \<Rightarrow> error + int" where
  "parse_unsigned s =
     (case s of
        [] \<Rightarrow> Inl ValueError
      | c # cs \<Rightarrow> (case digit_of c of
                    None \<Rightarrow> Inl ValueError
                  | Some v \<Rightarrow> (case parse_digits v cs of
                                None \<Rightarrow> Inl ValueError
                              | Some n \<Rightarrow> Inr n)))"

definition py_int :: "string \<Rightarrow> error + int" where
  \<comment> \<open>\<^verbatim>\<open>int(s)\<close> for a string, base 10: white space stripped, an optional sign, digits.
      Digits and white space beyond ASCII, and the limit that recent interpreters put on
      the number of digits, are not modelled.\<close>
  "py_int s =
     (case py_strip s of
        [] \<Rightarrow> Inl ValueError
      | c # cs \<Rightarrow>
          if c = CHR ''+'' then parse_unsigned cs
          else if c = CHR ''-'' then map_sum id uminus (parse_unsigned cs)
          else parse_unsigned (c # cs))"

fun py_le_int :: "pyval \<Rightarrow> int \<Rightarrow> error + bool" where
  \<comment> \<open>\<^verbatim>\<open>v <= n\<close> for an integer \<open>n\<close>\<close>
  "py_le_int (PyInt a) n = Inr (a \<le> n)"
| "py_le_int _ n = Inl TypeError"

fun int_lt_py :: "int \<Rightarrow> pyval \<Rightarrow> error + bool" where
  \<comment> \<open>\<^verbatim>\<open>n < v\<close> for an integer \<open>n\<close>\<close>
  "int_lt_py n (PyInt b) = Inr (n < b)"
| "int_lt_py n _ = Inl TypeError"

definition py_between :: "pyval \<Rightarrow> int \<Rightarrow> pyval \<Rightarrow> error + bool" where
  \<comment> \<open>the chained comparison \<^verbatim>\<open>lo <= n < hi\<close>: \<open>hi\<close> is compared only if the first test holds\<close>
  "py_between lo n hi =
     (case py_le_int lo n of
        Inl e \<Rightarrow> Inl e
      | Inr b \<Rightarrow> if b then int_lt_py n hi else Inr False)"

definition hour :: "datetime \<Rightarrow> int" where
  \<comment> \<open>\<^verbatim>\<open>dt.hour\<close>\<close>
  "hour t = (t div 3600000000) mod 24"

definition minutes :: "int \<Rightarrow> real" where
  \<comment> \<open>\<^verbatim>\<open>td.total_seconds() / 60\<close> of a \<^verbatim>\<open>timedelta\<close> of \<open>d\<close> microseconds\<close>
  "minutes d = real_of_int d / 60000000"

definition py_trunc :: "real \<Rightarrow> int" where
  \<comment> \<open>\<^verbatim>\<open>int(x)\<close> for a float: truncation toward zero\<close>
  "py_trunc x = (if 0 \<le> x then \<lfloor>x\<rfloor> else \<lceil>x\<rceil>)"

subsection \<open>The pydantic models\<close>

record CalendarEvent =
  event_id :: string
  title :: string
  start_time :: datetime
  end_time :: datetime
  is_busy :: bool
  event_type :: string

text \<open>
  The fields \<^verbatim>\<open>start_time\<close> and \<^verbatim>\<open>end_time\<close> of \<^verbatim>\<open>FreeTimeSlot\<close> carry the prefix
  \<open>slot_\<close>, since a record field is a constant of the theory.
\<close>

record FreeTimeSlot =
  slot_start_time :: datetime
  slot_end_time :: datetime
  duration_minutes :: int
  quality_score :: real

definition new_FreeTimeSlot :: "datetime \<Rightarrow> datetime \<Rightarrow> int \<Rightarrow> real \<Rightarrow> error + FreeTimeSlot" where
  \<comment> \<open>the constructor validates \<^verbatim>\<open>quality_score: float = Field(ge=0, le=1)\<close>\<close>
  "new_FreeTimeSlot s e d q =
     (if 0 \<le> q \<and> q \<le> 1
      then Inr \<lparr>slot_start_time = s, slot_end_time = e, duration_minutes = d, quality_score = q\<rparr>
      else Inl ValidationError)"

subsection \<open>Slot quality\<close>

text \<open>
  The source converts each of the four time-of-day preferences with the same inlined
  code (\<^verbatim>\<open>if "T" in v: int(v.split("T")[1].split(":")[0]) else: int(v.split(":")[0])\<close>);
  \<open>time_string_hour\<close> is that code.
\<close>

definition time_string_hour :: "string \<Rightarrow> error + int" where
  "time_string_hour v =
     (if CHR ''T'' \<in> set v
      then (case py_index (py_split CHR ''T'' v) 1 of
              Inl e \<Rightarrow> Inl e
            | Inr t \<Rightarrow> (case py_index (py_split CHR '':'' t) 0 of
                          Inl e \<Rightarrow> Inl e
                        | Inr time_part \<Rightarrow> py_int time_part))
      else (case py_index (py_split CHR '':'' v) 0 of
              Inl e \<Rightarrow> Inl e
            | Inr h \<Rightarrow> py_int h))"

definition field_hour :: "prefs \<Rightarrow> pyval \<Rightarrow> string \<Rightarrow> int \<Rightarrow> error + pyval" where
  \<comment> \<open>one \<^verbatim>\<open>if isinstance(v, str): ... else: user_preferences.get(key, default)\<close>\<close>
  "field_hour up v legacy_key dflt =
     (case v of
        PyStr s \<Rightarrow> map_sum id PyInt (time_string_hour s)
      | _ \<Rightarrow> Inr (dict_get up legacy_key (PyInt dflt)))"

definition except_value_index :: "pyval \<times> pyval \<Rightarrow> error + pyval \<times> pyval \<Rightarrow> error + pyval \<times> pyval" where
  \<comment> \<open>\<^verbatim>\<open>except (ValueError, IndexError)\<close>: both variables are set to their defaults\<close>
  "except_value_index dflts r =
     (case r of
        Inl e \<Rightarrow> if e = ValueError \<or> e = IndexError then Inr dflts else Inl e
      | Inr p \<Rightarrow> Inr p)"

definition work_hours :: "prefs \<Rightarrow> error + pyval \<times> pyval" where
  \<comment> \<open>the first \<^verbatim>\<open>try\<close> statement: \<^verbatim>\<open>(work_start, work_end)\<close>\<close>
  "work_hours up =
     (let work_start_time = dict_get up ''work_start_time'' (PyStr ''09:00'');
          work_end_time = dict_get up ''work_end_time'' (PyStr ''17:00'')
      in except_value_index (PyInt 9, PyInt 17)
           (case field_hour up work_start_time ''work_start_hour'' 9 of
              Inl e \<Rightarrow> Inl e
            | Inr work_start \<Rightarrow>
                (case field_hour up work_end_time ''work_end_hour'' 17 of
                   Inl e \<Rightarrow> Inl e
                 | Inr work_end \<Rightarrow> Inr (work_start, work_end))))"

definition peak_hours :: "prefs \<Rightarrow> error + pyval \<times> pyval" where
  \<comment> \<open>the second \<^verbatim>\<open>try\<close> statement: \<^verbatim>\<open>(peak_start, peak_end)\<close>\<close>
  "peak_hours up =
     (let peak_start_time = dict_get up ''peak_hours_start'' (PyStr ''10:00'');
          peak_end_time = dict_get up ''peak_hours_end'' (PyStr ''12:00'')
      in except_value_index (PyInt 10, PyInt 12)
           (case field_hour up peak_start_time ''peak_hours_start'' 10 of
              Inl e \<Rightarrow> Inl e
            | Inr peak_start \<Rightarrow>
                (case field_hour up peak_end_time ''peak_hours_end'' 12 of
                   Inl e \<Rightarrow> Inl e
                 | Inr peak_end \<Rightarrow> Inr (peak_start, peak_end))))"

definition calculate_slot_quality :: "datetime \<Rightarrow> datetime \<Rightarrow> prefs \<Rightarrow> error + real" where
  \<comment> \<open>\<^verbatim>\<open>_calculate_slot_quality(self, start_time, end_time, user_preferences)\<close>\<close>
  "calculate_slot_quality start end up =
     (let quality = 0.5;
          h = hour start
      in case work_hours up of
           Inl e \<Rightarrow> Inl e
         | Inr (work_start, work_end) \<Rightarrow>
       (case py_between work_start h work_end of
           Inl e \<Rightarrow> Inl e
         | Inr in_work \<Rightarrow>
       (let quality = (if in_work then quality + 0.3 else quality)
        in case peak_hours up of
           Inl e \<Rightarrow> Inl e
         | Inr (peak_start, peak_end) \<Rightarrow>
       (case py_between peak_start h peak_end of
           Inl e \<Rightarrow> Inl e
         | Inr in_peak \<Rightarrow>
       (let quality = (if in_peak then quality + 0.3 else quality);
            work_style = dict_get up ''work_style'' (PyStr ''flexible'');
            quality = (if work_style = PyStr ''morning_person'' \<and> h < 12 then quality + 0.2
                       else if work_style = PyStr ''evening_person'' \<and> h \<ge> 15 then quality + 0.2
                       else quality);
            quality = (if h < 7 \<or> h > 20 then quality - 0.3 else quality);
            duration = minutes (end - start);
            quality = (if duration \<ge> 60 then quality + 0.1 else quality);
            quality = (if duration \<ge> 120 then quality + 0.1 else quality)
        in Inr (max 0 (min 1 quality)))))))"

subsection \<open>Free time slots\<close>

definition append_slot ::
  "prefs \<Rightarrow> int \<Rightarrow> datetime \<Rightarrow> datetime \<Rightarrow> FreeTimeSlot list \<Rightarrow> error + FreeTimeSlot list" where
  \<comment> \<open>the block that the loop and the code after it share: duration, threshold, score, append\<close>
  "append_slot up minimum_slot_minutes s e free_slots =
     (let slot_duration = py_trunc (minutes (e - s))
      in if slot_duration \<ge> minimum_slot_minutes
         then (case calculate_slot_quality s e up of
                 Inl err \<Rightarrow> Inl err
               | Inr quality \<Rightarrow>
                   (case new_FreeTimeSlot s e slot_duration quality of
                      Inl err \<Rightarrow> Inl err
                    | Inr slot \<Rightarrow> Inr (free_slots @ [slot])))
         else Inr free_slots)"

fun for_events ::
  "prefs \<Rightarrow> int \<Rightarrow> CalendarEvent list \<Rightarrow> datetime \<times> FreeTimeSlot list
     \<Rightarrow> error + datetime \<times> FreeTimeSlot list" where
  \<comment> \<open>\<^verbatim>\<open>for event in busy_events\<close>, on the state \<^verbatim>\<open>(current_time, free_slots)\<close>\<close>
  "for_events up m [] st = Inr st"
| "for_events up m (event # events) (current_time, free_slots) =
     (case (if current_time < start_time event
            then append_slot up m current_time (start_time event) free_slots
            else Inr free_slots) of
        Inl err \<Rightarrow> Inl err
      | Inr free_slots' \<Rightarrow>
          for_events up m events (max current_time (end_time event), free_slots'))"

definition busy_events :: "CalendarEvent list \<Rightarrow> CalendarEvent list" where
  \<comment> \<open>\<^verbatim>\<open>busy_events = [e for e in events if e.is_busy]\<close>, then
      \<^verbatim>\<open>busy_events.sort(key=lambda x: x.start_time)\<close>: Python's sort is stable\<close>
  "busy_events events = sort_key start_time (filter is_busy events)"

definition calculate_free_time_slots ::
  "CalendarEvent list \<Rightarrow> datetime \<Rightarrow> datetime \<Rightarrow> prefs \<Rightarrow> int \<Rightarrow> error + FreeTimeSlot list" where
  "calculate_free_time_slots events range_start range_end up minimum_slot_minutes =
     (case for_events up minimum_slot_minutes (busy_events events) (range_start, []) of
        Inl err \<Rightarrow> Inl err
      | Inr (current_time, free_slots) \<Rightarrow>
          if current_time < range_end
          then append_slot up minimum_slot_minutes current_time range_end free_slots
          else Inr free_slots)"

subsection \<open>The walk over the busy events, as a list of candidate gaps\<close>

text \<open>
  The loop of \<^verbatim>\<open>calculate_free_time_slots\<close> interleaves two things: it finds the gaps
  between the events and it turns each gap into a slot. The functions below separate the
  two, for the proofs: \<open>gaps\<close> lists the gaps that the loop meets, \<open>cursor\<close> is the value of
  \<^verbatim>\<open>current_time\<close> after the loop, and \<open>append_slots\<close> runs \<open>append_slot\<close> over a list of gaps.
\<close>

fun gaps :: "datetime \<Rightarrow> CalendarEvent list \<Rightarrow> (datetime \<times> datetime) list" where
  "gaps c [] = []"
| "gaps c (e # es) =
     (if c < start_time e then [(c, start_time e)] else []) @ gaps (max c (end_time e)) es"

fun cursor :: "datetime \<Rightarrow> CalendarEvent list \<Rightarrow> datetime" where
  "cursor c [] = c"
| "cursor c (e # es) = cursor (max c (end_time e)) es"

definition candidate_gaps ::
  "datetime \<Rightarrow> datetime \<Rightarrow> CalendarEvent list \<Rightarrow> (datetime \<times> datetime) list" where
  "candidate_gaps range_start range_end es =
     gaps range_start es @
     (if cursor range_start es < range_end then [(cursor range_start es, range_end)] else [])"

fun append_slots ::
  "prefs \<Rightarrow> int \<Rightarrow> (datetime \<times> datetime) list \<Rightarrow> FreeTimeSlot list
     \<Rightarrow> error + FreeTimeSlot list" where
  "append_slots up m [] free_slots = Inr free_slots"
| "append_slots up m ((s, e) # gs) free_slots =
     (case append_slot up m s e free_slots of
        Inl err \<Rightarrow> Inl err
      | Inr free_slots' \<Rightarrow> append_slots up m gs free_slots')"

subsection \<open>The rule table of the specification\<close>

definition rule_table :: "int \<Rightarrow> int \<Rightarrow> int \<Rightarrow> int \<Rightarrow> pyval \<Rightarrow> int \<Rightarrow> int \<Rightarrow> real" where
  \<comment> \<open>written from the table of the specification, not from the code: the score before
      clamping, for the work hours \<open>[ws, we)\<close>, the peak hours \<open>[ps, pe)\<close>, the work style,
      the hour \<open>h\<close> of the start and the length \<open>d\<close> of the slot in microseconds\<close>
  "rule_table ws we ps pe style h d =
     0.5 + (if ws \<le> h \<and> h < we then 0.3 else 0)
         + (if ps \<le> h \<and> h < pe then 0.3 else 0)
         + (if style = PyStr ''morning_person'' \<and> h < 12 then 0.2 else 0)
         + (if style = PyStr ''evening_person'' \<and> h \<ge> 15 then 0.2 else 0)
         - (if h < 7 \<or> h > 20 then 0.3 else 0)
         + (if d \<ge> 60 * 60000000 then 0.1 else 0)
         + (if d \<ge> 120 * 60000000 then 0.1 else 0)"

subsection \<open>Vocabulary of the statements\<close>

definition bounds :: "FreeTimeSlot \<Rightarrow> datetime \<times> datetime" where
  "bounds x = (slot_start_time x, slot_end_time x)"

definition long_enough :: "int \<Rightarrow> datetime \<times> datetime \<Rightarrow> bool" where
  \<comment> \<open>the test \<^verbatim>\<open>slot_duration >= minimum_slot_minutes\<close> on a gap\<close>
  "long_enough m g = (m \<le> py_trunc (minutes (snd g - fst g)))"



definition default_preferences :: prefs where
  \<comment> \<open>the defaults of \<^verbatim>\<open>UserPreferences\<close> (\<^verbatim>\<open>backend/app/models/user_preferences.py\<close>),
      restricted to the keys that the calendar service reads\<close>
  "default_preferences =
     [''work_start_time'' \<mapsto> PyStr ''09:00'', ''work_end_time'' \<mapsto> PyStr ''17:00'',
      ''work_style'' \<mapsto> PyStr ''flexible'',
      ''peak_hours_start'' \<mapsto> PyStr ''10:00'', ''peak_hours_end'' \<mapsto> PyStr ''12:00'']"

definition at_time :: "int \<Rightarrow> int \<Rightarrow> int \<Rightarrow> datetime" where
  \<comment> \<open>the \<^verbatim>\<open>datetime\<close> of day \<open>day\<close> at \<open>h:mi\<close>\<close>
  "at_time day h mi = ((day * 24 + h) * 60 + mi) * 60000000"

definition overlaps :: "datetime \<times> datetime \<Rightarrow> datetime \<times> datetime \<Rightarrow> bool" where
  \<comment> \<open>two half-open intervals \<open>[start, end)\<close> have a common instant\<close>
  "overlaps x y = (max (fst x) (fst y) < min (snd x) (snd y))"

definition span :: "CalendarEvent \<Rightarrow> datetime \<times> datetime" where
  "span e = (start_time e, end_time e)"



section \<open>Properties\<close>

subsection \<open>The loop and the list of gaps\<close>

lemma append_slots_append:
  "append_slots up m (gs @ hs) free =
     (case append_slots up m gs free of
        Inl err \<Rightarrow> Inl err
      | Inr free' \<Rightarrow> append_slots up m hs free')"
  by (induction gs arbitrary: free) (auto split: sum.splits)

lemma for_events_gaps:
  "for_events up m es (c, free) =
     (case append_slots up m (gaps c es) free of
        Inl err \<Rightarrow> Inl err
      | Inr free' \<Rightarrow> Inr (cursor c es, free'))"
  by (induction es arbitrary: c free) (auto split: sum.splits)

lemma calculate_free_time_slots_gaps:
  "calculate_free_time_slots events s e up m =
     append_slots up m (candidate_gaps s e (busy_events events)) []"
  by (auto simp: calculate_free_time_slots_def candidate_gaps_def for_events_gaps
        append_slots_append split: sum.splits)

lemma py_trunc_minutes: "0 \<le> d \<Longrightarrow> py_trunc (minutes d) = d div 60000000"
  unfolding py_trunc_def minutes_def
  by (simp add: floor_divide_of_int_eq [of d 60000000, simplified])

subsection \<open>Conversion of the time-of-day preferences\<close>




















subsection \<open>The score\<close>

lemma minutes_ge:
  "(minutes d \<ge> 60) = (d \<ge> 60 * 60000000)"
  "(minutes d \<ge> 120) = (d \<ge> 120 * 60000000)"
  unfolding minutes_def by (simp_all add: le_divide_eq)

lemma add_if: "(if P then q + a else q) = q + (if P then a else (0::real))"
  by simp

lemma sub_if: "(if P then q - a else q) = q - (if P then a else (0::real))"
  by simp

lemma style_if:
  "(if s = PyStr ''morning_person'' \<and> h < 12 then q + a
    else q + (if s = PyStr ''evening_person'' \<and> (15::int) \<le> h then a else 0)) =
   q + (if s = PyStr ''morning_person'' \<and> h < 12 then a else 0)
     + (if s = PyStr ''evening_person'' \<and> 15 \<le> h then a else (0::real))"
  by auto

lemma py_between_ints: "py_between (PyInt a) h (PyInt b) = Inr (a \<le> h \<and> h < b)"
  by (simp add: py_between_def)

lemma calculate_slot_quality_int_hours:
  assumes "work_hours up = Inr (PyInt ws, PyInt we)"
      and "peak_hours up = Inr (PyInt ps, PyInt pe)"
  shows "calculate_slot_quality s e up =
     Inr (max 0 (min 1 (rule_table ws we ps pe (dict_get up ''work_style'' (PyStr ''flexible''))
                          (hour s) (e - s))))"
  unfolding calculate_slot_quality_def assms rule_table_def
  apply (simp only: py_between_ints sum.case prod.case add_if sub_if)
  apply (simp only: Let_def)
  apply (simp only: minutes_ge style_if)
  done






lemma default_work_hours: "work_hours default_preferences = Inr (PyInt 9, PyInt 17)"
  by code_simp

lemma default_peak_hours: "peak_hours default_preferences = Inr (PyInt 10, PyInt 12)"
  by code_simp

lemma default_work_style:
  "dict_get default_preferences ''work_style'' (PyStr ''flexible'') = PyStr ''flexible''"
  by code_simp

lemma hour_at_time:
  assumes "0 \<le> h" "h < 24" "0 \<le> mi" "mi < 60"
  shows "hour (at_time d h mi) = h"
proof -
  have "at_time d h mi = (d * 24 + h) * 3600000000 + mi * 60000000"
    by (simp add: at_time_def algebra_simps)
  moreover have "((d * 24 + h) * 3600000000 + mi * 60000000) div 3600000000 = d * 24 + h"
    using assms by (simp add: div_pos_pos_trivial)
  ultimately show ?thesis
    using assms by (simp add: hour_def)
qed

subsection \<open>What the slots of a run are\<close>

lemma append_slot_Inr:
  assumes "append_slot up m s e free = Inr out"
  shows "map bounds out = map bounds free @ filter (long_enough m) [(s, e)]"
    and "\<forall>x\<in>set out. x \<in> set free \<or>
           (duration_minutes x = py_trunc (minutes (slot_end_time x - slot_start_time x)) \<and>
            m \<le> duration_minutes x \<and>
            calculate_slot_quality (slot_start_time x) (slot_end_time x) up = Inr (quality_score x))"
  using assms
  by (auto simp: append_slot_def new_FreeTimeSlot_def Let_def bounds_def long_enough_def
        split: if_splits sum.splits)

lemma append_slots_Inr:
  assumes "append_slots up m gs free = Inr out"
  shows "map bounds out = map bounds free @ filter (long_enough m) gs
       \<and> (\<forall>x\<in>set out. x \<in> set free \<or>
           (duration_minutes x = py_trunc (minutes (slot_end_time x - slot_start_time x)) \<and>
            m \<le> duration_minutes x \<and>
            calculate_slot_quality (slot_start_time x) (slot_end_time x) up = Inr (quality_score x)))"
  using assms
proof (induction gs arbitrary: free)
  case Nil
  then show ?case by simp
next
  case (Cons g gs)
  obtain s e where g: "g = (s, e)" by (cases g)
  from Cons.prems g obtain free' where
    step: "append_slot up m s e free = Inr free'" and rest: "append_slots up m gs free' = Inr out"
    by (auto split: sum.splits)
  from append_slot_Inr [OF step] Cons.IH [OF rest] g show ?case
    by auto
qed



subsection \<open>The gaps\<close>

lemma gaps_bounds: "(a, b) \<in> set (gaps c es) \<Longrightarrow> c \<le> a \<and> a < b"
  by (induction es arbitrary: c) (fastforce split: if_splits)+

lemma cursor_ge: "c \<le> cursor c es"
  by (induction es arbitrary: c) (auto intro: order_trans [OF max.cobounded1])

lemma candidate_gaps_bounds: "(a, b) \<in> set (candidate_gaps rs re es) \<Longrightarrow> rs \<le> a \<and> a < b"
  using cursor_ge [of rs es] by (auto simp: candidate_gaps_def dest: gaps_bounds split: if_splits)

lemma gaps_no_later_start: "\<forall>e\<in>set es. start_time e \<le> c \<Longrightarrow> gaps c es = []"
  by (induction es arbitrary: c) (auto simp: le_max_iff_disj)

lemma set_busy_events: "set (busy_events events) = {e \<in> set events. is_busy e}"
  by (auto simp: busy_events_def)

lemma gaps_append: "gaps c (xs @ ys) = gaps c xs @ gaps (cursor c xs) ys"
  by (induction xs arbitrary: c) auto

lemma cursor_append: "cursor c (xs @ ys) = cursor (cursor c xs) ys"
  by (induction xs arbitrary: c) auto

lemma cursor_max: "cursor (max c a) es = max a (cursor c es)"
proof (induction es arbitrary: c)
  case Nil
  then show ?case by (simp add: max.commute)
next
  case (Cons x xs)
  have "max (max c a) (end_time x) = max (max c (end_time x)) a"
    by (simp add: max.assoc max.commute)
  with Cons.IH [of "max c (end_time x)"] show ?case
    by simp
qed

lemma cursor_ge_end: "e \<in> set es \<Longrightarrow> end_time e \<le> cursor c es"
  by (induction es arbitrary: c) (auto simp: cursor_max intro: le_max_iff_disj [THEN iffD2])

lemma cursor_fold: "cursor c es = fold max (map end_time es) c"
  by (induction es arbitrary: c) (auto simp: max.commute)

lemma cursor_mset: "mset xs = mset ys \<Longrightarrow> cursor c xs = cursor c ys"
proof -
  assume "mset xs = mset ys"
  then have "mset (map end_time xs) = mset (map end_time ys)"
    by (metis mset_map)
  then have "fold max (map end_time xs) = fold max (map end_time ys)"
    by (intro fold_multiset_equiv) (auto simp: fun_eq_iff max.left_commute)
  then show ?thesis
    by (simp add: cursor_fold)
qed

lemma gaps_ordered:
  assumes "\<forall>e\<in>set es. start_time e \<le> end_time e"
  shows "sorted_wrt (\<lambda>g h. snd g \<le> fst h) (gaps c es) \<and> (\<forall>g\<in>set (gaps c es). snd g \<le> cursor c es)"
  using assms
proof (induction es arbitrary: c)
  case Nil
  then show ?case by simp
next
  case (Cons e es)
  let ?c = "max c (end_time e)"
  from Cons have ih: "sorted_wrt (\<lambda>g h. snd g \<le> fst h) (gaps ?c es)"
    "\<forall>g\<in>set (gaps ?c es). snd g \<le> cursor ?c es"
    by auto
  have later: "\<forall>h\<in>set (gaps ?c es). start_time e \<le> fst h"
  proof
    fix h assume "h \<in> set (gaps ?c es)"
    then have "?c \<le> fst h" using gaps_bounds [of "fst h" "snd h" ?c es] by simp
    with Cons.prems show "start_time e \<le> fst h" by auto
  qed
  have "start_time e \<le> cursor ?c es"
    using cursor_ge [of ?c es] Cons.prems by auto
  with ih later show ?case
    by (auto simp: sorted_wrt_append)
qed

lemma candidate_gaps_ordered:
  assumes "\<forall>e\<in>set es. start_time e \<le> end_time e"
  shows "sorted_wrt (\<lambda>g h. snd g \<le> fst h) (candidate_gaps rs re es)"
  using gaps_ordered [OF assms, of rs]
  by (auto simp: candidate_gaps_def sorted_wrt_append)

lemma gaps_avoid_events:
  assumes "sorted (map start_time es)" and "g \<in> set (gaps c es)" and "e \<in> set es"
  shows "snd g \<le> start_time e \<or> end_time e \<le> fst g"
  using assms
proof (induction es arbitrary: c)
  case Nil
  then show ?case by simp
next
  case (Cons x xs)
  let ?c = "max c (end_time x)"
  show ?case
  proof (cases "g \<in> set (gaps ?c xs)")
    case True
    show ?thesis
    proof (cases "e = x")
      case True
      from \<open>g \<in> set (gaps ?c xs)\<close> have "?c \<le> fst g"
        using gaps_bounds [of "fst g" "snd g" ?c xs] by simp
      with True show ?thesis by auto
    next
      case False
      with Cons.prems have "e \<in> set xs" by simp
      with Cons.IH [OF _ True] Cons.prems(1) show ?thesis by simp
    qed
  next
    case False
    with Cons.prems(2) have "g = (c, start_time x)"
      by (auto split: if_splits)
    with Cons.prems(1,3) show ?thesis by auto
  qed
qed

lemma candidate_gaps_avoid_events:
  assumes "sorted (map start_time es)" and "g \<in> set (candidate_gaps rs re es)" and "e \<in> set es"
  shows "\<not> overlaps g (span e)"
proof (cases "g \<in> set (gaps rs es)")
  case True
  from gaps_avoid_events [OF assms(1) True assms(3)] show ?thesis
    by (auto simp: overlaps_def span_def)
next
  case False
  with assms(2) have "fst g = cursor rs es"
    by (auto simp: candidate_gaps_def split: if_splits)
  with cursor_ge_end [OF assms(3), of rs] show ?thesis
    by (auto simp: overlaps_def span_def)
qed

lemma sorted_busy_events: "sorted (map start_time (busy_events events))"
  by (simp add: busy_events_def)

lemma overlaps_sym: "overlaps x y = overlaps y x"
  by (simp add: overlaps_def max.commute min.commute)

subsection \<open>Events in another order, and merged events\<close>

lemma gaps_tie_group:
  assumes "\<forall>e\<in>set es. start_time e = k \<and> k \<le> end_time e" and "es \<noteq> []"
  shows "gaps c es = (if c < k then [(c, k)] else [])"
proof (cases es)
  case Nil
  with assms(2) show ?thesis by simp
next
  case (Cons x xs)
  with assms(1) have "\<forall>e\<in>set xs. start_time e \<le> max c (end_time x)"
    by (auto simp: le_max_iff_disj)
  then have g: "gaps (max c (end_time x)) xs = []"
    by (rule gaps_no_later_start)
  from Cons assms(1) have "start_time x = k"
    by simp
  then show ?thesis
    unfolding Cons gaps.simps g by simp
qed

lemma gaps_move_to_front:
  assumes "\<forall>e\<in>set (x # xs). start_time e = k \<and> k \<le> end_time e"
  shows "gaps c (xs @ x # ys) = gaps c (x # xs @ ys)"
proof -
  have "mset (xs @ [x]) = mset (x # xs)"
    by simp
  then have cur: "cursor c (xs @ [x]) = cursor c (x # xs)"
    by (rule cursor_mset)
  have "gaps c (xs @ [x]) = (if c < k then [(c, k)] else [])"
    using assms by (intro gaps_tie_group) auto
  moreover have "gaps c (x # xs) = (if c < k then [(c, k)] else [])"
    using assms by (intro gaps_tie_group) auto
  ultimately have "gaps c (xs @ [x]) = gaps c (x # xs)"
    by (simp only:)
  then have "gaps c ((xs @ [x]) @ ys) = gaps c ((x # xs) @ ys)"
    unfolding gaps_append cur by simp
  then show ?thesis by simp
qed

lemma gaps_sorted_mset:
  assumes "sorted (map start_time xs)" and "sorted (map start_time ys)"
      and "mset xs = mset ys" and "\<forall>e\<in>set xs. start_time e \<le> end_time e"
  shows "gaps c xs = gaps c ys"
  using assms
proof (induction xs arbitrary: ys c)
  case Nil
  then show ?case by simp
next
  case (Cons x xs)
  from Cons.prems(3) have sets: "set ys = set (x # xs)"
    by (metis mset_eq_setD)
  then have "x \<in> set ys" by simp
  then obtain as bs where ys: "ys = as @ x # bs"
    by (meson split_list)
  have tie: "start_time a = start_time x" if "a \<in> set as" for a
  proof -
    from that Cons.prems(2) ys have "start_time a \<le> start_time x"
      by (auto simp: sorted_append)
    moreover from that ys sets have "a \<in> set (x # xs)" by auto
    with Cons.prems(1) have "start_time x \<le> start_time a" by auto
    ultimately show ?thesis by simp
  qed
  have wf: "\<forall>e\<in>set ys. start_time e \<le> end_time e"
    using Cons.prems(4) sets by simp
  have "\<forall>e\<in>set (x # as). start_time e = start_time x \<and> start_time x \<le> end_time e"
  proof
    fix e assume e: "e \<in> set (x # as)"
    with ys have "e \<in> set ys" by auto
    with wf have "start_time e \<le> end_time e" by simp
    moreover from e tie have "start_time e = start_time x" by auto
    ultimately show "start_time e = start_time x \<and> start_time x \<le> end_time e" by simp
  qed
  then have front: "gaps c ys = gaps c (x # as @ bs)"
    unfolding ys by (rule gaps_move_to_front)
  have "mset xs = mset (as @ bs)"
    using Cons.prems(3) ys by simp
  moreover have "sorted (map start_time (as @ bs))"
    using Cons.prems(2) ys by (auto simp: sorted_append)
  moreover have "sorted (map start_time xs)"
    using Cons.prems(1) by simp
  ultimately have "gaps (max c (end_time x)) xs = gaps (max c (end_time x)) (as @ bs)"
    using Cons.prems(4) by (intro Cons.IH) auto
  with front show ?case by simp
qed

lemma candidate_gaps_sorted_mset:
  assumes "sorted (map start_time xs)" and "sorted (map start_time ys)"
      and "mset xs = mset ys" and "\<forall>e\<in>set xs. start_time e \<le> end_time e"
  shows "candidate_gaps rs re xs = candidate_gaps rs re ys"
  unfolding candidate_gaps_def
  by (simp add: gaps_sorted_mset [OF assms] cursor_mset [OF assms(3)])





lemma candidate_gaps_busy_events_mset:
  assumes "\<forall>e\<in>set events. is_busy e \<longrightarrow> start_time e \<le> end_time e"
      and "sorted (map start_time es)" and "mset es = mset (filter is_busy events)"
  shows "candidate_gaps rs re (busy_events events) = candidate_gaps rs re es"
proof (rule candidate_gaps_sorted_mset)
  show "sorted (map start_time (busy_events events))"
    by (rule sorted_busy_events)
  show "sorted (map start_time es)"
    by (rule assms(2))
  show "mset (busy_events events) = mset es"
    by (simp add: busy_events_def assms(3))
  show "\<forall>e\<in>set (busy_events events). start_time e \<le> end_time e"
    using assms(1) by (simp add: set_busy_events)
qed

section \<open>The claims\<close>











text \<open>
  C5. On any day, for the range 09:00 to 17:00, one busy event from 12:00 to 13:00, a
  minimum of 30 minutes and the default preferences, the result is the slot from 09:00 to
  12:00 (180 minutes, score 1) followed by the slot from 13:00 to 17:00 (240 minutes,
  score 1).
\<close>

theorem scenario_one_busy_hour:
  "calculate_free_time_slots
     [\<lparr>event_id = i, title = t, start_time = at_time d 12 0, end_time = at_time d 13 0,
       is_busy = True, event_type = k\<rparr>]
     (at_time d 9 0) (at_time d 17 0) default_preferences 30 =
   Inr [\<lparr>slot_start_time = at_time d 9 0, slot_end_time = at_time d 12 0,
         duration_minutes = 180, quality_score = 1\<rparr>,
        \<lparr>slot_start_time = at_time d 13 0, slot_end_time = at_time d 17 0,
         duration_minutes = 240, quality_score = 1\<rparr>]"
proof -
  let ?ev = "\<lparr>event_id = i, title = t, start_time = at_time d 12 0, end_time = at_time d 13 0,
       is_busy = True, event_type = k\<rparr>"
  note quality = calculate_slot_quality_int_hours [OF default_work_hours default_peak_hours]
  have len1: "at_time d 12 0 - at_time d 9 0 = 10800000000"
   and len2: "at_time d 17 0 - at_time d 13 0 = 14400000000"
    by (simp_all add: at_time_def)
  have q1: "calculate_slot_quality (at_time d 9 0) (at_time d 12 0) default_preferences = Inr 1"
    by (simp add: quality hour_at_time len1 default_work_style rule_table_def)
  have q2: "calculate_slot_quality (at_time d 13 0) (at_time d 17 0) default_preferences = Inr 1"
    by (simp add: quality hour_at_time len2 default_work_style rule_table_def)
  have g: "candidate_gaps (at_time d 9 0) (at_time d 17 0) (busy_events [?ev]) =
      [(at_time d 9 0, at_time d 12 0), (at_time d 13 0, at_time d 17 0)]"
    by (simp add: candidate_gaps_def busy_events_def at_time_def)
  show ?thesis
    unfolding calculate_free_time_slots_gaps g
    by (simp add: append_slot_def q1 q2 len1 len2 py_trunc_minutes new_FreeTimeSlot_def)
qed




text \<open>
  C7, as the code has it. If \<open>range_start = range_end\<close> and no busy event starts after
  \<open>range_start\<close>, the result is empty.
\<close>

theorem empty_range_gives_no_slot:
  assumes "range_start = range_end"
      and "\<forall>e\<in>set events. is_busy e \<longrightarrow> start_time e \<le> range_start"
  shows "calculate_free_time_slots events range_start range_end up m = Inr []"
proof -
  have "gaps range_start (busy_events events) = []"
    using assms(2) by (intro gaps_no_later_start) (simp add: set_busy_events)
  moreover have "\<not> cursor range_start (busy_events events) < range_end"
    using cursor_ge [of range_start "busy_events events"] assms(1) by simp
  ultimately show ?thesis
    by (simp add: calculate_free_time_slots_gaps candidate_gaps_def)
qed

theorem empty_range_gives_no_slot_witness:
  "(32400000000 :: int) = 32400000000
   \<and> start_time \<lparr>event_id = ''e1'', title = ''Standup'', start_time = 28800000000,
                  end_time = 36000000000, is_busy = True, event_type = ''meeting''\<rparr>
       \<le> 32400000000
   \<and> calculate_free_time_slots
        [\<lparr>event_id = ''e1'', title = ''Standup'', start_time = 28800000000,
          end_time = 36000000000, is_busy = True, event_type = ''meeting''\<rparr>]
        32400000000 32400000000 Map.empty 30 = Inr []"
  using empty_range_gives_no_slot
    [of 32400000000 32400000000
        "[\<lparr>event_id = ''e1'', title = ''Standup'', start_time = 28800000000,
           end_time = 36000000000, is_busy = True, event_type = ''meeting''\<rparr>]"
        Map.empty 30]
  by simp

text \<open>
  C7 as stated fails: with \<open>range_start = range_end =\<close> 09:00 and a busy event from 10:00
  to 11:00, the loop finds the gap from 09:00 to 10:00 before the event and returns it.
\<close>

theorem empty_range_with_later_event_gives_slot:
  "calculate_free_time_slots
     [\<lparr>event_id = ''e1'', title = ''Review'', start_time = 36000000000,
       end_time = 39600000000, is_busy = True, event_type = ''meeting''\<rparr>]
     32400000000 32400000000 Map.empty 30 =
   Inr [\<lparr>slot_start_time = 32400000000, slot_end_time = 36000000000,
         duration_minutes = 60, quality_score = 0.9\<rparr>]"
  by code_simp

text \<open>
  C8. If every busy event ends no earlier than it starts, the slots of the result have
  strictly ascending start times, no two of them overlap, and none overlaps a busy event.
\<close>

theorem slots_ascending_disjoint_and_free:
  assumes "\<forall>e\<in>set events. is_busy e \<longrightarrow> start_time e \<le> end_time e"
      and "calculate_free_time_slots events range_start range_end up m = Inr slots"
  shows "sorted_wrt (<) (map slot_start_time slots)
       \<and> (\<forall>i j. i < length slots \<longrightarrow> j < length slots \<longrightarrow> i \<noteq> j \<longrightarrow>
                 \<not> overlaps (bounds (slots ! i)) (bounds (slots ! j)))
       \<and> (\<forall>x\<in>set slots. \<forall>e\<in>set events. is_busy e \<longrightarrow> \<not> overlaps (bounds x) (span e))"
proof -
  let ?es = "busy_events events"
  let ?G = "candidate_gaps range_start range_end ?es"
  from assms(2) have "append_slots up m ?G [] = Inr slots"
    by (simp add: calculate_free_time_slots_gaps)
  from append_slots_Inr [OF this] have b: "map bounds slots = filter (long_enough m) ?G"
    by simp
  have wf: "\<forall>e\<in>set ?es. start_time e \<le> end_time e"
    using assms(1) by (simp add: set_busy_events)
  have "sorted_wrt (\<lambda>g h. snd g \<le> fst h) (map bounds slots)"
    unfolding b by (rule sorted_wrt_filter) (rule candidate_gaps_ordered [OF wf])
  then have chain: "sorted_wrt (\<lambda>x y. slot_end_time x \<le> slot_start_time y) slots"
    by (simp add: sorted_wrt_map bounds_def)
  have pos: "\<forall>x\<in>set slots. slot_start_time x < slot_end_time x"
  proof
    fix x assume "x \<in> set slots"
    then have "bounds x \<in> set (map bounds slots)" by simp
    with b have "bounds x \<in> set ?G" by simp
    then show "slot_start_time x < slot_end_time x"
      using candidate_gaps_bounds [of "slot_start_time x" "slot_end_time x"]
      by (simp add: bounds_def)
  qed
  have asc: "sorted_wrt (\<lambda>x y. slot_start_time x < slot_start_time y) slots"
    using chain by (rule sorted_wrt_mono_rel [rotated]) (use pos in fastforce)
  have apart: "sorted_wrt (\<lambda>x y. \<not> overlaps (bounds x) (bounds y)) slots"
    using chain by (rule sorted_wrt_mono_rel [rotated]) (auto simp: overlaps_def bounds_def)
  have disjoint: "\<not> overlaps (bounds (slots ! i)) (bounds (slots ! j))"
    if "i < length slots" "j < length slots" "i \<noteq> j" for i j
  proof (cases "i < j")
    case True
    with apart that show ?thesis by (simp add: sorted_wrt_iff_nth_less)
  next
    case False
    with that have "j < i" by simp
    with apart that have "\<not> overlaps (bounds (slots ! j)) (bounds (slots ! i))"
      by (simp add: sorted_wrt_iff_nth_less)
    then show ?thesis by (simp add: overlaps_sym)
  qed
  have free: "\<not> overlaps (bounds x) (span e)" if "x \<in> set slots" "e \<in> set events" "is_busy e" for x e
  proof -
    from that(1) have "bounds x \<in> set (map bounds slots)" by simp
    with b have "bounds x \<in> set ?G" by simp
    moreover from that(2,3) have "e \<in> set ?es" by (simp add: set_busy_events)
    ultimately show ?thesis
      using candidate_gaps_avoid_events [OF sorted_busy_events] by blast
  qed
  from asc disjoint free show ?thesis
    by (simp add: sorted_wrt_map)
qed

theorem slots_ascending_disjoint_and_free_witness:
  "start_time \<lparr>event_id = ''e1'', title = ''Lunch'', start_time = 43200000000,
                end_time = 46800000000, is_busy = True, event_type = ''personal''\<rparr>
     \<le> end_time \<lparr>event_id = ''e1'', title = ''Lunch'', start_time = 43200000000,
                end_time = 46800000000, is_busy = True, event_type = ''personal''\<rparr>
   \<and> calculate_free_time_slots
        [\<lparr>event_id = ''e1'', title = ''Lunch'', start_time = 43200000000,
          end_time = 46800000000, is_busy = True, event_type = ''personal''\<rparr>]
        32400000000 61200000000 Map.empty 30 =
      Inr [\<lparr>slot_start_time = 32400000000, slot_end_time = 43200000000,
            duration_minutes = 180, quality_score = 1\<rparr>,
           \<lparr>slot_start_time = 46800000000, slot_end_time = 61200000000,
            duration_minutes = 240, quality_score = 1\<rparr>]
   \<and> sorted_wrt (<) (map slot_start_time
        [\<lparr>slot_start_time = 32400000000, slot_end_time = 43200000000,
            duration_minutes = 180, quality_score = 1\<rparr>,
         \<lparr>slot_start_time = 46800000000, slot_end_time = 61200000000,
            duration_minutes = 240, quality_score = 1\<rparr>])
   \<and> \<not> overlaps (32400000000, 43200000000) (46800000000, 61200000000)
   \<and> \<not> overlaps (46800000000, 61200000000) (43200000000, 46800000000)"
proof -
  let ?ev = "\<lparr>event_id = ''e1'', title = ''Lunch'', start_time = 43200000000,
                end_time = 46800000000, is_busy = True, event_type = ''personal''\<rparr>"
  let ?s1 = "\<lparr>slot_start_time = 32400000000, slot_end_time = 43200000000,
            duration_minutes = 180, quality_score = 1\<rparr>"
  let ?s2 = "\<lparr>slot_start_time = 46800000000, slot_end_time = 61200000000,
            duration_minutes = 240, quality_score = 1\<rparr>"
  have wf: "\<forall>e\<in>set [?ev]. is_busy e \<longrightarrow> start_time e \<le> end_time e"
    by simp
  have run: "calculate_free_time_slots [?ev] 32400000000 61200000000 Map.empty 30 =
      Inr [?s1, ?s2]"
    by code_simp
  note c8 = slots_ascending_disjoint_and_free [OF wf run]
  from c8 have asc: "sorted_wrt (<) (map slot_start_time [?s1, ?s2])"
    by (rule conjunct1)
  from c8 have "\<forall>i j. i < length [?s1, ?s2] \<longrightarrow> j < length [?s1, ?s2] \<longrightarrow> i \<noteq> j \<longrightarrow>
      \<not> overlaps (bounds ([?s1, ?s2] ! i)) (bounds ([?s1, ?s2] ! j))"
    by (rule conjunct2 [THEN conjunct1])
  from this [rule_format, of 0 1] have d: "\<not> overlaps (32400000000, 43200000000) (46800000000, 61200000000)"
    by (simp add: bounds_def)
  from c8 have "\<not> overlaps (bounds ?s2) (span ?ev)"
    by simp
  then have f: "\<not> overlaps (46800000000, 61200000000) (43200000000, 46800000000)"
    by (simp add: bounds_def span_def)
  from run asc d f show ?thesis
    by simp
qed

text \<open>
  C9, as the code has it. The busy events are processed in ascending order of start; the
  sort is stable, so events with the same start keep the order of the input list (they
  are not ordered by end). If every busy event ends no earlier than it starts, two
  input lists that are permutations of each other give the same result.
\<close>

theorem stable_order_and_permutations:
  assumes "\<forall>e\<in>set events. is_busy e \<longrightarrow> start_time e \<le> end_time e"
      and "mset events' = mset events"
  shows "sorted (map start_time (busy_events events))
       \<and> filter (\<lambda>e. start_time e = k) (busy_events events) =
           filter (\<lambda>e. start_time e = k) (filter is_busy events)
       \<and> calculate_free_time_slots events' range_start range_end up m =
           calculate_free_time_slots events range_start range_end up m"
proof -
  have "mset (busy_events events') = mset (filter is_busy events)"
    using assms(2) by (simp add: busy_events_def)
  from candidate_gaps_busy_events_mset [OF assms(1) sorted_busy_events this]
  have "calculate_free_time_slots events' range_start range_end up m =
        calculate_free_time_slots events range_start range_end up m"
    by (simp add: calculate_free_time_slots_gaps)
  then show ?thesis
    by (simp add: sorted_busy_events) (simp add: busy_events_def sort_key_stable)
qed


theorem stable_order_and_permutations_witness:
  "calculate_free_time_slots
     [\<lparr>event_id = ''e2'', title = ''Call'', start_time = 32400000000, end_time = 36000000000,
       is_busy = True, event_type = ''meeting''\<rparr>,
      \<lparr>event_id = ''e1'', title = ''Workshop'', start_time = 32400000000,
       end_time = 39600000000, is_busy = True, event_type = ''meeting''\<rparr>]
     28800000000 43200000000 Map.empty 30 =
   calculate_free_time_slots
     [\<lparr>event_id = ''e1'', title = ''Workshop'', start_time = 32400000000,
       end_time = 39600000000, is_busy = True, event_type = ''meeting''\<rparr>,
      \<lparr>event_id = ''e2'', title = ''Call'', start_time = 32400000000, end_time = 36000000000,
       is_busy = True, event_type = ''meeting''\<rparr>]
     28800000000 43200000000 Map.empty 30"
proof -
  let ?e1 = "\<lparr>event_id = ''e1'', title = ''Workshop'', start_time = 32400000000,
       end_time = 39600000000, is_busy = True, event_type = ''meeting''\<rparr>"
  let ?e2 = "\<lparr>event_id = ''e2'', title = ''Call'', start_time = 32400000000, end_time = 36000000000,
       is_busy = True, event_type = ''meeting''\<rparr>"
  have wf: "\<forall>e\<in>set [?e1, ?e2]. is_busy e \<longrightarrow> start_time e \<le> end_time e"
    by simp
  have perm: "mset [?e2, ?e1] = mset [?e1, ?e2]"
    by simp
  from stable_order_and_permutations [OF wf perm] show ?thesis
    by blast
qed

text \<open>
  C9 as stated fails. Two busy events that start at 09:00, the first until 11:00 and the
  second until 10:00, are processed in the order of the input, the later end first. And
  for events that end before they start, the order of the input shows in the result: the
  events from 10:00 "to" 08:30 and from 10:00 "to" 09:30 give different slots in the two
  orders.
\<close>

theorem ties_keep_input_order:
  "busy_events
     [\<lparr>event_id = ''e1'', title = ''Workshop'', start_time = 32400000000,
       end_time = 39600000000, is_busy = True, event_type = ''meeting''\<rparr>,
      \<lparr>event_id = ''e2'', title = ''Call'', start_time = 32400000000, end_time = 36000000000,
       is_busy = True, event_type = ''meeting''\<rparr>] =
     [\<lparr>event_id = ''e1'', title = ''Workshop'', start_time = 32400000000,
       end_time = 39600000000, is_busy = True, event_type = ''meeting''\<rparr>,
      \<lparr>event_id = ''e2'', title = ''Call'', start_time = 32400000000, end_time = 36000000000,
       is_busy = True, event_type = ''meeting''\<rparr>]
   \<and> calculate_free_time_slots
     [\<lparr>event_id = ''x'', title = ''Sync'', start_time = 36000000000, end_time = 30600000000,
       is_busy = True, event_type = ''meeting''\<rparr>,
      \<lparr>event_id = ''y'', title = ''Call'', start_time = 36000000000, end_time = 34200000000,
       is_busy = True, event_type = ''meeting''\<rparr>]
     28800000000 64800000000 Map.empty 30 =
     Inr [\<lparr>slot_start_time = 28800000000, slot_end_time = 36000000000,
           duration_minutes = 120, quality_score = 0.7\<rparr>,
          \<lparr>slot_start_time = 30600000000, slot_end_time = 36000000000,
           duration_minutes = 90, quality_score = 0.6\<rparr>,
          \<lparr>slot_start_time = 34200000000, slot_end_time = 64800000000,
           duration_minutes = 510, quality_score = 1\<rparr>]
   \<and> calculate_free_time_slots
     [\<lparr>event_id = ''y'', title = ''Call'', start_time = 36000000000, end_time = 34200000000,
       is_busy = True, event_type = ''meeting''\<rparr>,
      \<lparr>event_id = ''x'', title = ''Sync'', start_time = 36000000000, end_time = 30600000000,
       is_busy = True, event_type = ''meeting''\<rparr>]
     28800000000 64800000000 Map.empty 30 =
     Inr [\<lparr>slot_start_time = 28800000000, slot_end_time = 36000000000,
           duration_minutes = 120, quality_score = 0.7\<rparr>,
          \<lparr>slot_start_time = 34200000000, slot_end_time = 36000000000,
           duration_minutes = 30, quality_score = 0.8\<rparr>,
          \<lparr>slot_start_time = 34200000000, slot_end_time = 64800000000,
           duration_minutes = 510, quality_score = 1\<rparr>]"
  by code_simp

text \<open>
  C10. The result is the result for the list without the events that are not busy.
\<close>

theorem tentative_events_are_ignored:
  "calculate_free_time_slots events range_start range_end up m =
   calculate_free_time_slots (filter is_busy events) range_start range_end up m"
  by (simp add: calculate_free_time_slots_def busy_events_def)

end
